theory Spec2Isabelle
  imports Main "HOL-Library.Word" "HOL-Library.Monad_Syntax"
begin

section \<open>Go values used by the macro resource\<close>

text \<open>
  The identifier of a macro is an \<open>int64\<close>, its position a Go \<open>int\<close> (64 bits on the
  platforms the provider is built for). Strings are byte sequences.
\<close>

type_synonym int64 = "64 word"
type_synonym go_int = "64 word"

subsection \<open>strconv.ParseInt(s, 10, 64)\<close>

text \<open>
  The two kinds of \<open>*strconv.NumError\<close>: \<open>ErrSyntax\<close> and \<open>ErrRange\<close>.
\<close>

datatype num_err = ErrSyntax | ErrRange

text \<open>
  The digit loop of \<open>ParseUint\<close> for base 10 and bit size 64. A byte outside
  \<open>'0'..'9'\<close> is a syntax error (letters give a digit value of at least the base, the
  underscore is only accepted for base 0). \<open>n \<ge> cutoff\<close> means that \<open>n * 10\<close>
  overflows; \<open>n1 > maxVal\<close> that adding the digit does. The accumulator is a \<open>nat\<close>
  with the overflow tests of the source written out.
\<close>

definition maxUint64 :: nat where
  "maxUint64 = 2 ^ 64 - 1"

definition cutoff10 :: nat where
  "cutoff10 = maxUint64 div 10 + 1"

fun parse_digits :: "nat \<Rightarrow> string \<Rightarrow> num_err + nat" where
  "parse_digits n [] = Inr n"
| "parse_digits n (c # cs) =
     (if 48 \<le> (of_char c :: nat) \<and> (of_char c :: nat) \<le> 57 then
        (let d = (of_char c :: nat) - 48 in
         if n \<ge> cutoff10 then Inl ErrRange
         else (let n1 = n * 10 + d in
               if n1 > maxUint64 then Inl ErrRange else parse_digits n1 cs))
      else Inl ErrSyntax)"

definition ParseUint :: "string \<Rightarrow> num_err + nat" where
  "ParseUint s = (if s = [] then Inl ErrSyntax else parse_digits 0 s)"

text \<open>
  Go errors. \<open>NumError s k\<close> is the \<open>*strconv.NumError\<close> of \<open>ParseInt\<close>
  on the input \<open>s\<close>; \<open>CouldNotParseId v e\<close> is
  \<open>fmt.Errorf("could not parse ticket field id %s: %v", v, e)\<close>; \<open>OtherError\<close>
  stands for the errors of the collaborators (the remote client, the bag's writes).
\<close>

datatype error =
    NumError string num_err
  | CouldNotParseId string error
  | OtherError string

text \<open>
  \<open>ParseInt\<close>: the empty string is a syntax error; a leading sign is picked off; the
  rest is parsed unsigned; the range test uses the cutoff \<open>2 ^ 63\<close>. A range error of
  \<open>ParseUint\<close> falls through to the range tests with the maximal value, so it stays a
  range error. The number returned beside an error is ignored by every caller.
\<close>

definition ParseInt :: "string \<Rightarrow> error + int64" where
  "ParseInt s =
     (if s = [] then Inl (NumError s ErrSyntax)
      else
        (let neg = (hd s = CHR ''-'');
             r = (if hd s = CHR ''+'' \<or> hd s = CHR ''-'' then tl s else s)
         in case ParseUint r of
              Inl ErrSyntax \<Rightarrow> Inl (NumError s ErrSyntax)
            | Inl ErrRange \<Rightarrow> Inl (NumError s ErrRange)
            | Inr un \<Rightarrow>
                if \<not> neg \<and> un \<ge> 2 ^ 63 then Inl (NumError s ErrRange)
                else if neg \<and> un > 2 ^ 63 then Inl (NumError s ErrRange)
                else (let n = (word_of_nat un :: int64) in
                      Inr (if neg then - n else n))))"

subsection \<open>fmt.Sprintf("%d", id)\<close>

definition digit_char :: "nat \<Rightarrow> char" where
  "digit_char d = char_of (48 + d)"

fun decimal :: "nat \<Rightarrow> string" where
  "decimal n = (if n < 10 then [digit_char n]
                else decimal (n div 10) @ [digit_char (n mod 10)])"

declare decimal.simps [simp del]

text \<open>
  A negative \<open>int64\<close> is negated as an unsigned 64-bit value and printed after a minus
  sign.
\<close>

definition Sprintf_d :: "int64 \<Rightarrow> string" where
  "Sprintf_d w = (if w <s 0 then CHR ''-'' # decimal (unat (- w)) else decimal (unat w))"

section \<open>The remote entity\<close>

text \<open>
  Modelled from the spec: \<open>client.Macro\<close> and \<open>client.MacroAction\<close> are declared
  in the remote client library, outside the repository. The fields are the ones that the
  mapper and its tests name; an action is a pair of strings. A nil slice and an empty
  slice are both the empty list. A time stamp is an opaque instant.
\<close>

record MacroAction =
  Field :: string
  Value :: string

record Macro =
  ID :: int64
  URL :: string
  Title :: string
  Description :: string
  Position :: go_int
  Active :: bool
  Restriction :: string
  Actions :: "MacroAction list"
  CreatedAt :: nat
  UpdatedAt :: nat

text \<open>The zero value \<open>client.Macro{}\<close>.\<close>

definition zero_Macro :: Macro where
  "zero_Macro = \<lparr>ID = 0, URL = [], Title = [], Description = [], Position = 0,
     Active = False, Restriction = [], Actions = [], CreatedAt = 0, UpdatedAt = 0\<rparr>"

section \<open>The attribute bag\<close>

text \<open>
  The bag holds \<open>interface{}\<close> values. The dynamic types that occur are \<open>string\<close>,
  \<open>int\<close>, \<open>bool\<close>, \<open>[]client.MacroAction\<close> (what the encoder stores),
  \<open>[]interface{}\<close> and \<open>map[string]interface{}\<close> (what the decoder asserts).
\<close>

datatype val =
    VString string
  | VInt go_int
  | VBool bool
  | VActions "MacroAction list"
  | VList "val list"
  | VMap "string \<Rightarrow> val option"

text \<open>
  A type assertion \<open>v.(T)\<close> without the comma-ok form panics when the dynamic type
  of \<open>v\<close> is not \<open>T\<close>: \<open>None\<close> is the panic.
\<close>

fun assert_string :: "val \<Rightarrow> string option" where
  "assert_string (VString s) = Some s"
| "assert_string _ = None"

fun assert_int :: "val \<Rightarrow> go_int option" where
  "assert_int (VInt i) = Some i"
| "assert_int _ = None"

fun assert_bool :: "val \<Rightarrow> bool option" where
  "assert_bool (VBool b) = Some b"
| "assert_bool _ = None"

fun assert_list :: "val \<Rightarrow> val list option" where
  "assert_list (VList vs) = Some vs"
| "assert_list _ = None"

fun assert_map :: "val \<Rightarrow> (string \<Rightarrow> val option) option" where
  "assert_map (VMap f) = Some f"
| "assert_map _ = None"

text \<open>
  Modelled from the spec: the accessor interface \<open>identifiableGetterSetter\<close>
  (\<open>Id\<close>, \<open>SetId\<close>, \<open>GetOk\<close>, \<open>Set\<close>) and the helper \<open>setSchemaFields\<close> are
  declared outside the files at hand. The bag is a mapping from field names to values with
  one identifier slot. \<open>GetOk\<close> returns the value and whether the key is present.
  \<open>Set\<close> stores the value under the key unless the write mechanism of the bag rejects
  it; \<open>reject\<close> is that mechanism, and it never rejects in the map-backed bag of the
  tests.
\<close>

record bag =
  ident :: string
  attrs :: "string \<Rightarrow> val option"
  reject :: "string \<Rightarrow> val \<Rightarrow> error option"

definition bag_Id :: "bag \<Rightarrow> string" where
  "bag_Id d = ident d"

definition bag_SetId :: "bag \<Rightarrow> string \<Rightarrow> bag" where
  "bag_SetId d s = d\<lparr>ident := s\<rparr>"

definition bag_GetOk :: "bag \<Rightarrow> string \<Rightarrow> val option" where
  "bag_GetOk d k = attrs d k"

definition bag_Set :: "bag \<Rightarrow> string \<Rightarrow> val \<Rightarrow> bag \<times> error option" where
  "bag_Set d k v =
     (case reject d k v of
        Some err \<Rightarrow> (d, Some err)
      | None \<Rightarrow> (d\<lparr>attrs := (attrs d)(k \<mapsto> v)\<rparr>, None))"

text \<open>
  \<open>setSchemaFields\<close> ranges over a Go map and stops at the first rejected write. The
  order in which \<open>range\<close> yields the keys is chosen by the runtime: it is the argument
  \<open>order\<close>.
\<close>

fun setSchemaFields :: "bag \<Rightarrow> (string \<Rightarrow> val option) \<Rightarrow> string list \<Rightarrow> bag \<times> error option" where
  "setSchemaFields d m [] = (d, None)"
| "setSchemaFields d m (k # order) =
     (case m k of
        None \<Rightarrow> setSchemaFields d m order
      | Some v \<Rightarrow>
          (case bag_Set d k v of
             (d', Some err) \<Rightarrow> (d', Some err)
           | (d', None) \<Rightarrow> setSchemaFields d' m order))"

section \<open>The schema descriptor\<close>

datatype value_type = TypeString | TypeInt | TypeBool | TypeList

text \<open>
  One entry of \<open>resourceZendeskMacro().Schema\<close>. \<open>Elem\<close> lists the fields of the
  element resource of a list, all of them required there.
\<close>

record schema =
  Type :: value_type
  Required :: bool
  Optional :: bool
  Computed :: bool
  Default :: "val option"
  Elem :: "(string \<times> value_type) list"

definition resourceZendeskMacro_Schema :: "(string \<times> schema) list" where
  "resourceZendeskMacro_Schema =
     [(''url'', \<lparr>Type = TypeString, Required = False, Optional = False, Computed = True,
         Default = None, Elem = []\<rparr>),
      (''title'', \<lparr>Type = TypeString, Required = True, Optional = False, Computed = False,
         Default = None, Elem = []\<rparr>),
      (''description'', \<lparr>Type = TypeString, Required = False, Optional = True,
         Computed = False, Default = None, Elem = []\<rparr>),
      (''position'', \<lparr>Type = TypeInt, Required = False, Optional = True, Computed = False,
         Default = None, Elem = []\<rparr>),
      (''restriction'', \<lparr>Type = TypeString, Required = False, Optional = True,
         Computed = False, Default = None, Elem = []\<rparr>),
      (''active'', \<lparr>Type = TypeBool, Required = False, Optional = True, Computed = False,
         Default = Some (VBool True), Elem = []\<rparr>),
      (''actions'', \<lparr>Type = TypeList, Required = True, Optional = False, Computed = False,
         Default = None,
         Elem = [(''field'', TypeString), (''value'', TypeString)]\<rparr>)]"

text \<open>A value has the declared type of its schema entry.\<close>

fun has_type :: "value_type \<Rightarrow> val \<Rightarrow> bool" where
  "has_type TypeString (VString s) = True"
| "has_type TypeInt (VInt i) = True"
| "has_type TypeBool (VBool b) = True"
| "has_type _ _ = False"

fun is_resource :: "(string \<times> value_type) list \<Rightarrow> val \<Rightarrow> bool" where
  "is_resource elem (VMap f) =
     list_all (\<lambda>(k, t). case f k of None \<Rightarrow> False | Some x \<Rightarrow> has_type t x) elem"
| "is_resource elem _ = False"

definition conforms :: "schema \<Rightarrow> val \<Rightarrow> bool" where
  "conforms s v =
     (case Type s of
        TypeList \<Rightarrow> (case v of VList vs \<Rightarrow> list_all (is_resource (Elem s)) vs | _ \<Rightarrow> False)
      | t \<Rightarrow> has_type t v)"

text \<open>Every key of the schema that is present in the bag holds a value of its type.\<close>

definition schema_typed :: "bag \<Rightarrow> bool" where
  "schema_typed d =
     list_all (\<lambda>(k, s). case bag_GetOk d k of None \<Rightarrow> True | Some v \<Rightarrow> conforms s v)
       resourceZendeskMacro_Schema"

section \<open>The mapper\<close>

text \<open>The map literal of \<open>marshalMacro\<close>.\<close>

definition macro_fields :: "Macro \<Rightarrow> string \<Rightarrow> val option" where
  "macro_fields field =
     [''url'' \<mapsto> VString (URL field),
      ''title'' \<mapsto> VString (Title field),
      ''description'' \<mapsto> VString (Description field),
      ''position'' \<mapsto> VInt (Position field),
      ''restriction'' \<mapsto> VString (Restriction field),
      ''active'' \<mapsto> VBool (Active field),
      ''actions'' \<mapsto> VActions (Actions field)]"

definition marshalMacro :: "string list \<Rightarrow> Macro \<Rightarrow> bag \<Rightarrow> bag \<times> error option" where
  "marshalMacro order field d =
     (let fields = macro_fields field in
      case setSchemaFields d fields order of
        (d', Some err) \<Rightarrow> (d', Some err)
      | (d', None) \<Rightarrow> (d', None))"

text \<open>
  The loop over the actions of \<open>unmarshalMacro\<close>. Indexing the action map with a
  missing key yields nil, and the assertion to \<open>string\<close> panics on it.
\<close>

fun append_actions :: "Macro \<Rightarrow> val list \<Rightarrow> Macro option" where
  "append_actions m [] = Some m"
| "append_actions m (action # actions) =
     do {
       actionMap \<leftarrow> assert_map action;
       f \<leftarrow> (case actionMap ''field'' of None \<Rightarrow> None | Some x \<Rightarrow> assert_string x);
       v \<leftarrow> (case actionMap ''value'' of None \<Rightarrow> None | Some x \<Rightarrow> assert_string x);
       append_actions (m\<lparr>Actions := Actions m @ [\<lparr>Field = f, Value = v\<rparr>]\<rparr>) actions
     }"

text \<open>
  The seven reads of \<open>unmarshalMacro\<close> that follow the identifier, one function for
  each \<open>if v, ok := d.GetOk(key); ok { ... }\<close> of the source.
\<close>

definition read_url :: "bag \<Rightarrow> Macro \<Rightarrow> Macro option" where
  "read_url d m =
     (case bag_GetOk d ''url'' of
        None \<Rightarrow> Some m
      | Some v \<Rightarrow> do { s \<leftarrow> assert_string v; Some (m\<lparr>URL := s\<rparr>) })"

definition read_title :: "bag \<Rightarrow> Macro \<Rightarrow> Macro option" where
  "read_title d m =
     (case bag_GetOk d ''title'' of
        None \<Rightarrow> Some m
      | Some v \<Rightarrow> do { s \<leftarrow> assert_string v; Some (m\<lparr>Title := s\<rparr>) })"

definition read_description :: "bag \<Rightarrow> Macro \<Rightarrow> Macro option" where
  "read_description d m =
     (case bag_GetOk d ''description'' of
        None \<Rightarrow> Some m
      | Some v \<Rightarrow> do { s \<leftarrow> assert_string v; Some (m\<lparr>Description := s\<rparr>) })"

definition read_position :: "bag \<Rightarrow> Macro \<Rightarrow> Macro option" where
  "read_position d m =
     (case bag_GetOk d ''position'' of
        None \<Rightarrow> Some m
      | Some v \<Rightarrow> do { i \<leftarrow> assert_int v; Some (m\<lparr>Position := i\<rparr>) })"

definition read_active :: "bag \<Rightarrow> Macro \<Rightarrow> Macro option" where
  "read_active d m =
     (case bag_GetOk d ''active'' of
        None \<Rightarrow> Some m
      | Some v \<Rightarrow> do { b \<leftarrow> assert_bool v; Some (m\<lparr>Active := b\<rparr>) })"

definition read_restriction :: "bag \<Rightarrow> Macro \<Rightarrow> Macro option" where
  "read_restriction d m =
     (case bag_GetOk d ''restriction'' of
        None \<Rightarrow> Some m
      | Some v \<Rightarrow> do { s \<leftarrow> assert_string v; Some (m\<lparr>Restriction := s\<rparr>) })"

definition read_actions :: "bag \<Rightarrow> Macro \<Rightarrow> Macro option" where
  "read_actions d m =
     (case bag_GetOk d ''actions'' of
        None \<Rightarrow> Some m
      | Some v \<Rightarrow> do { actions \<leftarrow> assert_list v; append_actions m actions })"

definition unmarshal_fields :: "bag \<Rightarrow> Macro \<Rightarrow> Macro option" where
  "unmarshal_fields d m0 =
     do {
       m1 \<leftarrow> read_url d m0;
       m2 \<leftarrow> read_title d m1;
       m3 \<leftarrow> read_description d m2;
       m4 \<leftarrow> read_position d m3;
       m5 \<leftarrow> read_active d m4;
       m6 \<leftarrow> read_restriction d m5;
       read_actions d m6
     }"

text \<open>
  \<open>unmarshalMacro\<close>: \<open>None\<close> is a panic, \<open>Some (Inl err)\<close> the error return,
  \<open>Some (Inr m)\<close> the macro returned with a nil error.
\<close>

definition unmarshalMacro :: "bag \<Rightarrow> (error + Macro) option" where
  "unmarshalMacro d =
     (let m = zero_Macro; v = bag_Id d in
      if v \<noteq> [] then
        (case ParseInt v of
           Inl err \<Rightarrow> Some (Inl (CouldNotParseId v err))
         | Inr i \<Rightarrow> map_option Inr (unmarshal_fields d (m\<lparr>ID := i\<rparr>)))
      else map_option Inr (unmarshal_fields d m))"

section \<open>The lifecycle operations\<close>

text \<open>
  Modelled from the spec: the capability interface \<open>client.MacroAPI\<close> of the remote
  client library. Each method performs one remote call and returns a macro or an error.
\<close>

record MacroAPI =
  CreateMacro :: "Macro \<Rightarrow> error + Macro"
  GetMacro :: "int64 \<Rightarrow> error + Macro"
  UpdateMacro :: "int64 \<Rightarrow> Macro \<Rightarrow> error + Macro"
  DeleteMacro :: "int64 \<Rightarrow> error option"

text \<open>The remote calls that an operation issues, with their arguments.\<close>

datatype remote_call =
    CallCreateMacro Macro
  | CallGetMacro int64
  | CallUpdateMacro int64 Macro
  | CallDeleteMacro int64

text \<open>
  \<open>diag.FromErr\<close> wraps an error into a list of exactly one diagnostic; the nil
  \<open>diag.Diagnostics\<close> is the empty list.
\<close>

datatype diagnostic = ErrorDiagnostic error

definition FromErr :: "error \<Rightarrow> diagnostic list" where
  "FromErr err = [ErrorDiagnostic err]"

text \<open>
  What a run of an operation leaves behind: the diagnostics returned (or the panic), the
  bag as the operation left it, and the remote calls issued.
\<close>

datatype outcome = Returned "diagnostic list" | Panicked

record run =
  outcome :: outcome
  final :: bag
  calls :: "remote_call list"

definition createMacro :: "string list \<Rightarrow> bag \<Rightarrow> MacroAPI \<Rightarrow> run" where
  "createMacro order d zd =
     (case unmarshalMacro d of
        None \<Rightarrow> \<lparr>outcome = Panicked, final = d, calls = []\<rparr>
      | Some (Inl err) \<Rightarrow> \<lparr>outcome = Returned (FromErr err), final = d, calls = []\<rparr>
      | Some (Inr m) \<Rightarrow>
          (case CreateMacro zd m of
             Inl err \<Rightarrow>
               \<lparr>outcome = Returned (FromErr err), final = d, calls = [CallCreateMacro m]\<rparr>
           | Inr m' \<Rightarrow>
               (let d1 = bag_SetId d (Sprintf_d (ID m')) in
                case marshalMacro order m' d1 of
                  (d2, Some err) \<Rightarrow>
                    \<lparr>outcome = Returned (FromErr err), final = d2, calls = [CallCreateMacro m]\<rparr>
                | (d2, None) \<Rightarrow>
                    \<lparr>outcome = Returned [], final = d2, calls = [CallCreateMacro m]\<rparr>)))"

definition readMacro :: "string list \<Rightarrow> bag \<Rightarrow> MacroAPI \<Rightarrow> run" where
  "readMacro order d zd =
     (case ParseInt (bag_Id d) of
        Inl err \<Rightarrow> \<lparr>outcome = Returned (FromErr err), final = d, calls = []\<rparr>
      | Inr i \<Rightarrow>
          (case GetMacro zd i of
             Inl err \<Rightarrow>
               \<lparr>outcome = Returned (FromErr err), final = d, calls = [CallGetMacro i]\<rparr>
           | Inr macro \<Rightarrow>
               (case marshalMacro order macro d of
                  (d', Some err) \<Rightarrow>
                    \<lparr>outcome = Returned (FromErr err), final = d', calls = [CallGetMacro i]\<rparr>
                | (d', None) \<Rightarrow>
                    \<lparr>outcome = Returned [], final = d', calls = [CallGetMacro i]\<rparr>)))"

definition updateMacro :: "string list \<Rightarrow> bag \<Rightarrow> MacroAPI \<Rightarrow> run" where
  "updateMacro order d zd =
     (case unmarshalMacro d of
        None \<Rightarrow> \<lparr>outcome = Panicked, final = d, calls = []\<rparr>
      | Some (Inl err) \<Rightarrow> \<lparr>outcome = Returned (FromErr err), final = d, calls = []\<rparr>
      | Some (Inr m) \<Rightarrow>
          (case ParseInt (bag_Id d) of
             Inl err \<Rightarrow> \<lparr>outcome = Returned (FromErr err), final = d, calls = []\<rparr>
           | Inr i \<Rightarrow>
               (case UpdateMacro zd i m of
                  Inl err \<Rightarrow>
                    \<lparr>outcome = Returned (FromErr err), final = d,
                     calls = [CallUpdateMacro i m]\<rparr>
                | Inr m' \<Rightarrow>
                    (case marshalMacro order m' d of
                       (d', Some err) \<Rightarrow>
                         \<lparr>outcome = Returned (FromErr err), final = d',
                          calls = [CallUpdateMacro i m]\<rparr>
                     | (d', None) \<Rightarrow>
                         \<lparr>outcome = Returned [], final = d',
                          calls = [CallUpdateMacro i m]\<rparr>))))"

definition deleteMacro :: "bag \<Rightarrow> MacroAPI \<Rightarrow> run" where
  "deleteMacro d zd =
     (case ParseInt (bag_Id d) of
        Inl err \<Rightarrow> \<lparr>outcome = Returned (FromErr err), final = d, calls = []\<rparr>
      | Inr i \<Rightarrow>
          (case DeleteMacro zd i of
             Some err \<Rightarrow>
               \<lparr>outcome = Returned (FromErr err), final = d, calls = [CallDeleteMacro i]\<rparr>
           | None \<Rightarrow>
               \<lparr>outcome = Returned [], final = d, calls = [CallDeleteMacro i]\<rparr>))"

section \<open>Schema-shaped values and the inputs of the tests\<close>

text \<open>
  An entry of the \<open>actions\<close> list as the schema shapes it: a map with the keys
  \<open>field\<close> and \<open>value\<close>, both strings.
\<close>

definition action_record :: "MacroAction \<Rightarrow> val" where
  "action_record a =
     VMap [''field'' \<mapsto> VString (Field a), ''value'' \<mapsto> VString (Value a)]"

text \<open>The keys in the order of the map literal of \<open>marshalMacro\<close>.\<close>

definition literal_order :: "string list" where
  "literal_order =
     [''url'', ''title'', ''description'', ''position'', ''restriction'', ''active'',
      ''actions'']"

text \<open>The map-backed bag of the tests: no write is rejected.\<close>

definition no_attrs :: "string \<Rightarrow> val option" where
  "no_attrs = (\<lambda>k. None)"

definition never_reject :: "string \<Rightarrow> val \<Rightarrow> error option" where
  "never_reject = (\<lambda>k v. None)"

definition map_bag :: "string \<Rightarrow> (string \<Rightarrow> val option) \<Rightarrow> bag" where
  "map_bag i m = \<lparr>ident = i, attrs = m, reject = never_reject\<rparr>"

text \<open>
  The mock clients of the tests: every call returns the scripted macro, or every call
  fails with the scripted error.
\<close>

definition client_returning :: "Macro \<Rightarrow> MacroAPI" where
  "client_returning out =
     \<lparr>CreateMacro = (\<lambda>m. Inr out), GetMacro = (\<lambda>i. Inr out),
      UpdateMacro = (\<lambda>i m. Inr out), DeleteMacro = (\<lambda>i. None)\<rparr>"

definition client_failing :: "error \<Rightarrow> MacroAPI" where
  "client_failing err =
     \<lparr>CreateMacro = (\<lambda>m. Inl err), GetMacro = (\<lambda>i. Inl err),
      UpdateMacro = (\<lambda>i m. Inl err), DeleteMacro = (\<lambda>i. Some err)\<rparr>"

text \<open>The macro of \<open>TestReadMacro\<close> and the bag of \<open>TestMarshalMacro\<close>.\<close>

definition macro_test_read :: Macro where
  "macro_test_read =
     \<lparr>ID = 1234, URL = ''foobar'', Title = ''foobar'', Description = ''foobar'',
      Position = 50, Active = True, Restriction = ''restriction'',
      Actions = [\<lparr>Field = ''status'', Value = ''open''\<rparr>], CreatedAt = 1, UpdatedAt = 1\<rparr>"

definition bag_test_marshal :: bag where
  "bag_test_marshal =
     map_bag ''1234''
       [''url'' \<mapsto> VString ''https://example.zendesk.com/api/v2/macros/360011737434.json'',
        ''title'' \<mapsto> VString ''title'',
        ''description'' \<mapsto> VString ''description'',
        ''position'' \<mapsto> VInt 12,
        ''active'' \<mapsto> VBool True,
        ''restriction'' \<mapsto> VString ''restriction'',
        ''actions'' \<mapsto> VList [action_record \<lparr>Field = ''status'', Value = ''open''\<rparr>]]"

text \<open>A bag with two actions, and a bag that holds an integer under \<open>title\<close>.\<close>

definition bag_two_actions :: bag where
  "bag_two_actions =
     map_bag []
       [''actions'' \<mapsto> VList [action_record \<lparr>Field = ''status'', Value = ''open''\<rparr>,
                              action_record \<lparr>Field = ''priority'', Value = ''high''\<rparr>]]"

definition bag_title_int :: bag where
  "bag_title_int = map_bag [] [''title'' \<mapsto> VInt 5]"

section \<open>Printing and parsing an identifier\<close>

lemma of_char_digit_char: "d < 10 \<Longrightarrow> (of_char (digit_char d) :: nat) = 48 + d"
  by (simp add: digit_char_def)

lemma parse_digits_append:
  "parse_digits n (xs @ ys) = (case parse_digits n xs of Inl e \<Rightarrow> Inl e | Inr m \<Rightarrow> parse_digits m ys)"
  by (induction xs arbitrary: n) (auto simp: Let_def)

lemma parse_digits_decimal:
  "n \<le> maxUint64 \<Longrightarrow> parse_digits 0 (decimal n) = Inr n"
proof (induction n rule: decimal.induct)
  case (1 n)
  show ?case
  proof (cases "n < 10")
    case True
    then show ?thesis
      by (subst decimal.simps) (simp add: of_char_digit_char cutoff10_def maxUint64_def)
  next
    case False
    have le: "n div 10 \<le> maxUint64" using 1(2) by simp
    have ih: "parse_digits 0 (decimal (n div 10)) = Inr (n div 10)"
      using 1(1)[OF False le] .
    have c: "\<not> n div 10 \<ge> cutoff10" using 1(2) by (simp add: cutoff10_def maxUint64_def)
    have m: "n mod 10 < 10" by simp
    show ?thesis
      using False c 1(2)
      by (subst decimal.simps) (simp add: parse_digits_append ih of_char_digit_char[OF m])
  qed
qed

lemma decimal_nonempty: "decimal n \<noteq> []"
  by (subst decimal.simps) simp

lemma hd_decimal_digit: "48 \<le> (of_char (hd (decimal n)) :: nat) \<and> (of_char (hd (decimal n)) :: nat) \<le> 57"
proof (induction n rule: decimal.induct)
  case (1 n)
  show ?case
  proof (cases "n < 10")
    case True
    then show ?thesis by (subst decimal.simps, subst (2) decimal.simps) (simp add: of_char_digit_char)
  next
    case False
    then show ?thesis using 1[OF False] decimal_nonempty[of "n div 10"]
      by (subst decimal.simps, subst (2) decimal.simps) (simp)
  qed
qed

lemma hd_decimal_not_sign: "hd (decimal n) \<noteq> CHR ''+''" "hd (decimal n) \<noteq> CHR ''-''"
  using hd_decimal_digit[of n] by auto



lemma neg_mod_int: "(- u) mod (m::int) = (m - u) mod m"
proof -
  have "(m - u) mod m = (m + (- u)) mod m" by simp
  also have "\<dots> = (- u) mod m" by (rule mod_add_self1)
  finally show ?thesis by simp
qed

lemma sint_int64: "sint (w::int64) = (if uint w < 2 ^ 63 then uint w else uint w - 2 ^ 64)"
proof -
  have b: "0 \<le> uint w" "uint w < 2 ^ 64"
    using uint_lt2p[of w] by simp_all
  have "sint w = (uint w + 2 ^ 63) mod 2 ^ 64 - 2 ^ 63"
    by (simp add: sint_uint signed_take_bit_eq_take_bit_shift take_bit_eq_mod)
  also have "\<dots> = (if uint w < 2 ^ 63 then uint w else uint w - 2 ^ 64)"
  proof (cases "uint w < 2 ^ 63")
    case True
    then have "(uint w + 2 ^ 63) mod 2 ^ 64 = uint w + 2 ^ 63"
      using b by (intro mod_pos_pos_trivial) simp_all
    then show ?thesis using True by simp
  next
    case False
    have "(uint w + 2 ^ 63) mod 2 ^ 64 = (uint w - 2 ^ 63 + 2 ^ 64) mod 2 ^ 64"
      by (simp add: add.commute)
    also have "\<dots> = (uint w - 2 ^ 63) mod 2 ^ 64"
      by (simp only: mod_add_self2)
    also have "\<dots> = uint w - 2 ^ 63"
      using False b by (intro mod_pos_pos_trivial) simp_all
    finally show ?thesis using False by simp
  qed
  finally show ?thesis .
qed

lemma nonneg_unat: "\<not> (w::int64) <s 0 \<Longrightarrow> unat w < 2 ^ 63"
proof -
  assume a: "\<not> w <s 0"
  have b: "0 \<le> uint w" "uint w < 2 ^ 64"
    using uint_lt2p[of w] by simp_all
  from a have "uint w < 2 ^ 63"
    using b by (simp add: word_sless_alt sint_int64 split: if_splits)
  then have "int (unat w) < int (2 ^ 63)" by simp
  then show ?thesis by (simp only: of_nat_less_iff)
qed

lemma neg_unat: 
  assumes "(w::int64) <s 0" 
  shows "unat (- w) \<le> 2 ^ 63" and "unat (- w) \<noteq> 0"
proof -
  have b: "0 \<le> uint w" "uint w < 2 ^ 64"
    using uint_lt2p[of w] by simp_all
  from assms have ge: "2 ^ 63 \<le> uint w"
    using b by (simp add: word_sless_alt sint_int64 split: if_splits)
  have "uint (- w) = (- uint w) mod 2 ^ 64"
    by (simp add: uint_word_ariths)
  also have "\<dots> = (2 ^ 64 - uint w) mod 2 ^ 64"
    by (rule neg_mod_int)
  also have "\<dots> = 2 ^ 64 - uint w"
    using ge b by (intro mod_pos_pos_trivial) simp_all
  finally have u: "uint (- w) = 2 ^ 64 - uint w" .
  have "int (unat (- w)) = 2 ^ 64 - uint w" using u by simp
  then have le: "int (unat (- w)) \<le> int (2 ^ 63)" and ne: "int (unat (- w)) \<noteq> 0"
    using ge b by simp_all
  from le show "unat (- w) \<le> 2 ^ 63" by (simp only: of_nat_le_iff)
  show "unat (- w) \<noteq> 0"
  proof
    assume "unat (- w) = 0"
    then have "int (unat (- w)) = 0" by (simp only: of_nat_0)
    with ne show False by contradiction
  qed
qed

lemma unat_le_max: "unat (w::int64) \<le> maxUint64"
proof -
  have "unat w < 2 ^ LENGTH(64)" by (rule unsigned_less)
  then show ?thesis by (simp add: maxUint64_def)
qed

lemma ParseInt_Sprintf_d: "ParseInt (Sprintf_d w) = Inr w"
proof (cases "w <s 0")
  case False
  have "ParseUint (decimal (unat w)) = Inr (unat w)"
    by (simp add: ParseUint_def decimal_nonempty parse_digits_decimal unat_le_max)
  then show ?thesis
    using False nonneg_unat[OF False]
    by (simp add: ParseInt_def Sprintf_d_def decimal_nonempty hd_decimal_not_sign)
next
  case True
  have "ParseUint (decimal (unat (- w))) = Inr (unat (- w))"
    by (simp add: ParseUint_def decimal_nonempty parse_digits_decimal unat_le_max)
  then show ?thesis
    using True neg_unat[OF True]
    by (simp add: ParseInt_def Sprintf_d_def)
qed

section \<open>Properties of the decoder\<close>

lemma append_actions_shape:
  "append_actions m vs = Some m' \<Longrightarrow> \<exists>as. m' = m\<lparr>Actions := Actions m @ as\<rparr>"
proof (induction vs arbitrary: m)
  case Nil
  then show ?case by (auto intro: exI[of _ "[]"])
next
  case (Cons v vs)
  from Cons.prems obtain x y where
    r: "append_actions (m\<lparr>Actions := Actions m @ [\<lparr>Field = x, Value = y\<rparr>]\<rparr>) vs = Some m'"
    by (auto simp: bind_eq_Some_conv)
  from Cons.IH[OF r] obtain as where
    "m' = m\<lparr>Actions := (Actions m @ [\<lparr>Field = x, Value = y\<rparr>]) @ as\<rparr>"
    by auto
  then have "m' = m\<lparr>Actions := Actions m @ (\<lparr>Field = x, Value = y\<rparr> # as)\<rparr>"
    by simp
  then show ?case by blast
qed

lemma MacroAction_eta: "\<lparr>Field = Field a, Value = Value a\<rparr> = a"
  by (cases a) simp

lemma append_actions_record_Cons:
  "append_actions m (action_record a # vs) = append_actions (m\<lparr>Actions := Actions m @ [a]\<rparr>) vs"
  by (simp add: action_record_def MacroAction_eta)

lemma append_actions_records:
  "append_actions m (map action_record acts) = Some (m\<lparr>Actions := Actions m @ acts\<rparr>)"
proof (induction acts arbitrary: m)
  case Nil
  show ?case by simp
next
  case (Cons a acts)
  show ?case by (simp only: list.map append_actions_record_Cons Cons.IH) simp
qed

lemma read_url_shape: "read_url d m = Some m' \<Longrightarrow> \<exists>s. m' = m\<lparr>URL := s\<rparr>"
  by (auto simp: read_url_def bind_eq_Some_conv split: option.splits intro: exI[of _ "URL m"])

lemma read_title_shape: "read_title d m = Some m' \<Longrightarrow> \<exists>s. m' = m\<lparr>Title := s\<rparr>"
  by (auto simp: read_title_def bind_eq_Some_conv split: option.splits intro: exI[of _ "Title m"])

lemma read_description_shape: "read_description d m = Some m' \<Longrightarrow> \<exists>s. m' = m\<lparr>Description := s\<rparr>"
  by (auto simp: read_description_def bind_eq_Some_conv split: option.splits intro: exI[of _ "Description m"])

lemma read_position_shape: "read_position d m = Some m' \<Longrightarrow> \<exists>s. m' = m\<lparr>Position := s\<rparr>"
  by (auto simp: read_position_def bind_eq_Some_conv split: option.splits intro: exI[of _ "Position m"])

lemma read_active_shape: "read_active d m = Some m' \<Longrightarrow> \<exists>s. m' = m\<lparr>Active := s\<rparr>"
  by (auto simp: read_active_def bind_eq_Some_conv split: option.splits intro: exI[of _ "Active m"])

lemma read_restriction_shape: "read_restriction d m = Some m' \<Longrightarrow> \<exists>s. m' = m\<lparr>Restriction := s\<rparr>"
  by (auto simp: read_restriction_def bind_eq_Some_conv split: option.splits intro: exI[of _ "Restriction m"])

lemma read_actions_shape: "read_actions d m = Some m' \<Longrightarrow> \<exists>as. m' = m\<lparr>Actions := Actions m @ as\<rparr>"
  by (auto simp: read_actions_def bind_eq_Some_conv split: option.splits dest: append_actions_shape intro: exI[of _ "[]"])

lemma unmarshal_fields_steps:
  assumes "unmarshal_fields d m = Some m'"
  obtains m1 m2 m3 m4 m5 m6 where
    "read_url d m = Some m1" "read_title d m1 = Some m2" "read_description d m2 = Some m3"
    "read_position d m3 = Some m4" "read_active d m4 = Some m5"
    "read_restriction d m5 = Some m6" "read_actions d m6 = Some m'"
  using assms unfolding unmarshal_fields_def bind_eq_Some_conv by blast

lemma unmarshal_fields_ID:
  assumes "unmarshal_fields d m = Some m'"
  shows "ID m' = ID m"
proof -
  from assms obtain m1 m2 m3 m4 m5 m6 where
    s: "read_url d m = Some m1" "read_title d m1 = Some m2" "read_description d m2 = Some m3"
    "read_position d m3 = Some m4" "read_active d m4 = Some m5"
    "read_restriction d m5 = Some m6" "read_actions d m6 = Some m'"
    by (rule unmarshal_fields_steps)
  have "ID m1 = ID m" using read_url_shape[OF s(1)] by auto
  moreover have "ID m2 = ID m1" using read_title_shape[OF s(2)] by auto
  moreover have "ID m3 = ID m2" using read_description_shape[OF s(3)] by auto
  moreover have "ID m4 = ID m3" using read_position_shape[OF s(4)] by auto
  moreover have "ID m5 = ID m4" using read_active_shape[OF s(5)] by auto
  moreover have "ID m6 = ID m5" using read_restriction_shape[OF s(6)] by auto
  moreover have "ID m' = ID m6" using read_actions_shape[OF s(7)] by auto
  ultimately show ?thesis by simp
qed

lemma unmarshal_fields_active_absent:
  assumes "unmarshal_fields d m = Some m'" and "bag_GetOk d ''active'' = None"
  shows "Active m' = Active m"
proof -
  from assms(1) obtain m1 m2 m3 m4 m5 m6 where
    s: "read_url d m = Some m1" "read_title d m1 = Some m2" "read_description d m2 = Some m3"
    "read_position d m3 = Some m4" "read_active d m4 = Some m5"
    "read_restriction d m5 = Some m6" "read_actions d m6 = Some m'"
    by (rule unmarshal_fields_steps)
  have "Active m1 = Active m" using read_url_shape[OF s(1)] by auto
  moreover have "Active m2 = Active m1" using read_title_shape[OF s(2)] by auto
  moreover have "Active m3 = Active m2" using read_description_shape[OF s(3)] by auto
  moreover have "Active m4 = Active m3" using read_position_shape[OF s(4)] by auto
  moreover have "Active m5 = Active m4" using s(5) assms(2) by (simp add: read_active_def)
  moreover have "Active m6 = Active m5" using read_restriction_shape[OF s(6)] by auto
  moreover have "Active m' = Active m6" using read_actions_shape[OF s(7)] by auto
  ultimately show ?thesis by simp
qed

lemma unmarshal_fields_actions:
  assumes "unmarshal_fields d m = Some m'"
    and "bag_GetOk d ''actions'' = Some (VList (map action_record acts))"
  shows "Actions m' = Actions m @ acts"
proof -
  from assms(1) obtain m1 m2 m3 m4 m5 m6 where
    s: "read_url d m = Some m1" "read_title d m1 = Some m2" "read_description d m2 = Some m3"
    "read_position d m3 = Some m4" "read_active d m4 = Some m5"
    "read_restriction d m5 = Some m6" "read_actions d m6 = Some m'"
    by (rule unmarshal_fields_steps)
  have "Actions m1 = Actions m" using read_url_shape[OF s(1)] by auto
  moreover have "Actions m2 = Actions m1" using read_title_shape[OF s(2)] by auto
  moreover have "Actions m3 = Actions m2" using read_description_shape[OF s(3)] by auto
  moreover have "Actions m4 = Actions m3" using read_position_shape[OF s(4)] by auto
  moreover have "Actions m5 = Actions m4" using read_active_shape[OF s(5)] by auto
  moreover have "Actions m6 = Actions m5" using read_restriction_shape[OF s(6)] by auto
  moreover have "Actions m' = Actions m6 @ acts"
    using s(7) assms(2) by (auto simp: read_actions_def append_actions_records)
  ultimately show ?thesis by simp
qed

lemma read_actions_VActions:
  "bag_GetOk d ''actions'' = Some (VActions a) \<Longrightarrow> read_actions d m = None"
  by (simp add: read_actions_def)

lemma unmarshal_fields_VActions:
  assumes "bag_GetOk d ''actions'' = Some (VActions a)"
  shows "unmarshal_fields d m = None"
proof (rule ccontr)
  assume "unmarshal_fields d m \<noteq> None"
  then obtain m' where "unmarshal_fields d m = Some m'" by auto
  then obtain m6 where "read_actions d m6 = Some m'" by (rule unmarshal_fields_steps)
  then show False using read_actions_VActions[OF assms] by simp
qed

lemma has_type_string: "has_type TypeString v \<Longrightarrow> \<exists>s. v = VString s"
  by (cases v) simp_all

lemma has_type_int: "has_type TypeInt v \<Longrightarrow> \<exists>i. v = VInt i"
  by (cases v) simp_all

lemma has_type_bool: "has_type TypeBool v \<Longrightarrow> \<exists>b. v = VBool b"
  by (cases v) simp_all

lemma schema_typed_keys:
  assumes "schema_typed d"
  shows "bag_GetOk d ''url'' = Some v \<Longrightarrow> has_type TypeString v"
    and "bag_GetOk d ''title'' = Some v \<Longrightarrow> has_type TypeString v"
    and "bag_GetOk d ''description'' = Some v \<Longrightarrow> has_type TypeString v"
    and "bag_GetOk d ''position'' = Some v \<Longrightarrow> has_type TypeInt v"
    and "bag_GetOk d ''restriction'' = Some v \<Longrightarrow> has_type TypeString v"
    and "bag_GetOk d ''active'' = Some v \<Longrightarrow> has_type TypeBool v"
    and "bag_GetOk d ''actions'' = Some v \<Longrightarrow>
           \<exists>vs. v = VList vs \<and> list_all (is_resource [(''field'', TypeString), (''value'', TypeString)]) vs"
  using assms
  by (auto simp: schema_typed_def resourceZendeskMacro_Schema_def conforms_def split: val.splits)

lemma append_actions_resources:
  "list_all (is_resource [(''field'', TypeString), (''value'', TypeString)]) vs \<Longrightarrow>
   \<exists>m'. append_actions m vs = Some m'"
proof (induction vs arbitrary: m)
  case Nil
  show ?case by simp
next
  case (Cons v vs)
  from Cons.prems have r: "is_resource [(''field'', TypeString), (''value'', TypeString)] v"
    and rest: "list_all (is_resource [(''field'', TypeString), (''value'', TypeString)]) vs"
    by simp_all
  from r obtain f where v: "v = VMap f" by (cases v) simp_all
  from r v obtain x y where "f ''field'' = Some x" "has_type TypeString x"
      "f ''value'' = Some y" "has_type TypeString y"
    by (auto split: option.splits)
  then obtain sx sy where "f ''field'' = Some (VString sx)" "f ''value'' = Some (VString sy)"
    by (auto dest!: has_type_string)
  then show ?case using v Cons.IH[OF rest] by simp
qed

lemma schema_typed_reads:
  assumes "schema_typed d"
  shows "\<exists>m'. read_url d m = Some m'" "\<exists>m'. read_title d m = Some m'"
    "\<exists>m'. read_description d m = Some m'" "\<exists>m'. read_position d m = Some m'"
    "\<exists>m'. read_active d m = Some m'" "\<exists>m'. read_restriction d m = Some m'"
    "\<exists>m'. read_actions d m = Some m'"
proof -
  show "\<exists>m'. read_url d m = Some m'"
    using schema_typed_keys(1)[OF assms]
    by (auto simp: read_url_def split: option.splits dest!: has_type_string)
  show "\<exists>m'. read_title d m = Some m'"
    using schema_typed_keys(2)[OF assms]
    by (auto simp: read_title_def split: option.splits dest!: has_type_string)
  show "\<exists>m'. read_description d m = Some m'"
    using schema_typed_keys(3)[OF assms]
    by (auto simp: read_description_def split: option.splits dest!: has_type_string)
  show "\<exists>m'. read_position d m = Some m'"
    using schema_typed_keys(4)[OF assms]
    by (auto simp: read_position_def split: option.splits dest!: has_type_int)
  show "\<exists>m'. read_active d m = Some m'"
    using schema_typed_keys(6)[OF assms]
    by (auto simp: read_active_def split: option.splits dest!: has_type_bool)
  show "\<exists>m'. read_restriction d m = Some m'"
    using schema_typed_keys(5)[OF assms]
    by (auto simp: read_restriction_def split: option.splits dest!: has_type_string)
  show "\<exists>m'. read_actions d m = Some m'"
  proof (cases "bag_GetOk d ''actions''")
    case None
    then show ?thesis by (simp add: read_actions_def)
  next
    case (Some v)
    from schema_typed_keys(7)[OF assms Some] obtain vs where
      "v = VList vs" "list_all (is_resource [(''field'', TypeString), (''value'', TypeString)]) vs"
      by blast
    then show ?thesis using Some append_actions_resources[of vs m]
      by (simp add: read_actions_def)
  qed
qed

lemma schema_typed_unmarshal_fields:
  assumes "schema_typed d"
  shows "\<exists>m'. unmarshal_fields d m = Some m'"
proof -
  obtain m1 where 1: "read_url d m = Some m1" using schema_typed_reads(1)[OF assms] by blast
  obtain m2 where 2: "read_title d m1 = Some m2" using schema_typed_reads(2)[OF assms] by blast
  obtain m3 where 3: "read_description d m2 = Some m3" using schema_typed_reads(3)[OF assms] by blast
  obtain m4 where 4: "read_position d m3 = Some m4" using schema_typed_reads(4)[OF assms] by blast
  obtain m5 where 5: "read_active d m4 = Some m5" using schema_typed_reads(5)[OF assms] by blast
  obtain m6 where 6: "read_restriction d m5 = Some m6" using schema_typed_reads(6)[OF assms] by blast
  obtain m7 where 7: "read_actions d m6 = Some m7" using schema_typed_reads(7)[OF assms] by blast
  show ?thesis by (simp add: unmarshal_fields_def 1 2 3 4 5 6 7)
qed

lemma unmarshalMacro_error_iff:
  "(\<exists>err. unmarshalMacro d = Some (Inl err)) \<longleftrightarrow> (bag_Id d \<noteq> [] \<and> isl (ParseInt (bag_Id d)))"
  by (auto simp: unmarshalMacro_def Let_def split: sum.splits)

lemma unmarshalMacro_Inr:
  assumes "unmarshalMacro d = Some (Inr m)"
  shows "(bag_Id d = [] \<and> ID m = 0) \<or> (bag_Id d \<noteq> [] \<and> ParseInt (bag_Id d) = Inr (ID m))"
  using assms
  by (auto simp: unmarshalMacro_def Let_def zero_Macro_def split: sum.splits if_splits dest!: unmarshal_fields_ID)

lemma setSchemaFields_frame:
  "setSchemaFields d m ks = (d', e) \<Longrightarrow> ident d' = ident d \<and> reject d' = reject d"
proof (induction ks arbitrary: d)
  case Nil
  then show ?case by simp
next
  case (Cons k ks)
  show ?case
  proof (cases "m k")
    case None
    then show ?thesis using Cons by simp
  next
    case (Some v)
    show ?thesis
    proof (cases "reject d k v")
      case None
      with Some Cons.prems have "setSchemaFields (d\<lparr>attrs := (attrs d)(k \<mapsto> v)\<rparr>) m ks = (d', e)"
        by (simp add: bag_Set_def)
      from Cons.IH[OF this] show ?thesis by simp
    next
      case (Some err)
      with \<open>m k = Some v\<close> Cons.prems show ?thesis by (simp add: bag_Set_def)
    qed
  qed
qed

lemma setSchemaFields_written:
  "setSchemaFields d m ks = (d', None) \<Longrightarrow> k \<in> set ks \<Longrightarrow> m k = Some v \<Longrightarrow> attrs d' k = Some v"
proof (induction ks arbitrary: d)
  case Nil
  then show ?case by simp
next
  case (Cons a ks)
  have keep: "\<And>d0. setSchemaFields d0 m ks = (d', None) \<Longrightarrow> attrs d0 k = Some v \<Longrightarrow> attrs d' k = Some v"
  proof -
    fix d0 assume r: "setSchemaFields d0 m ks = (d', None)" and a0: "attrs d0 k = Some v"
    show "attrs d' k = Some v"
    proof (cases "k \<in> set ks")
      case True
      from Cons.IH[OF r True Cons.prems(3)] show ?thesis .
    next
      case False
      have "\<And>d1 d2. setSchemaFields d1 m ks = (d2, None) \<Longrightarrow> k \<notin> set ks \<Longrightarrow> attrs d2 k = attrs d1 k"
      proof -
        fix d1 d2 show "setSchemaFields d1 m ks = (d2, None) \<Longrightarrow> k \<notin> set ks \<Longrightarrow> attrs d2 k = attrs d1 k"
          by (induction ks arbitrary: d1) (auto simp: bag_Set_def split: option.splits)
      qed
      from this[OF r False] a0 show ?thesis by simp
    qed
  qed
  show ?case
  proof (cases "m a")
    case None
    then have r: "setSchemaFields d m ks = (d', None)" using Cons.prems(1) by simp
    from None Cons.prems have "k \<in> set ks" by auto
    from Cons.IH[OF r this Cons.prems(3)] show ?thesis .
  next
    case (Some w)
    then have rj: "reject d a w = None" using Cons.prems(1)
      by (auto simp: bag_Set_def split: option.splits)
    with Some Cons.prems(1) have r: "setSchemaFields (d\<lparr>attrs := (attrs d)(a \<mapsto> w)\<rparr>) m ks = (d', None)"
      by (simp add: bag_Set_def)
    show ?thesis
    proof (cases "k = a")
      case True
      with Some Cons.prems(3) have "w = v" by simp
      with True have "attrs (d\<lparr>attrs := (attrs d)(a \<mapsto> w)\<rparr>) k = Some v" by simp
      from keep[OF r this] show ?thesis .
    next
      case False
      with Cons.prems(2) have "k \<in> set ks" by simp
      from Cons.IH[OF r this Cons.prems(3)] show ?thesis .
    qed
  qed
qed

lemma marshalMacro_frame:
  "marshalMacro order field d = (d', e) \<Longrightarrow> ident d' = ident d \<and> reject d' = reject d"
  by (auto simp: marshalMacro_def Let_def split: prod.splits option.splits dest: setSchemaFields_frame)

lemma marshalMacro_actions:
  assumes "marshalMacro order field d = (d', None)" and "''actions'' \<in> set order"
  shows "bag_GetOk d' ''actions'' = Some (VActions (Actions field))"
proof -
  from assms(1) have "setSchemaFields d (macro_fields field) order = (d', None)"
    by (auto simp: marshalMacro_def Let_def split: prod.splits option.splits)
  moreover have "macro_fields field ''actions'' = Some (VActions (Actions field))"
    by (simp add: macro_fields_def)
  ultimately show ?thesis using assms(2)
    by (simp add: bag_GetOk_def setSchemaFields_written)
qed

lemma decode_after_encode_never_returns:
  assumes "marshalMacro order field d = (d', None)" and "''actions'' \<in> set order"
  shows "unmarshalMacro d' \<noteq> Some (Inr m)"
  using unmarshal_fields_VActions[OF marshalMacro_actions[OF assms]]
  by (auto simp: unmarshalMacro_def Let_def split: sum.splits if_splits)

section \<open>Evaluation on the inputs of the tests\<close>

lemma ParseInt_empty: "ParseInt [] = Inl (NumError [] ErrSyntax)"
  by (simp add: ParseInt_def)

lemma map_bag_simps:
  "bag_Id (map_bag i m) = i" "bag_GetOk (map_bag i m) k = m k" "ident (map_bag i m) = i"
  "attrs (map_bag i m) = m" "reject (map_bag i m) k v = None"
  by (simp_all add: bag_Id_def bag_GetOk_def map_bag_def never_reject_def)

lemma unmarshal_fields_no_attrs: "unmarshal_fields (map_bag i no_attrs) m = Some m"
  by (simp add: unmarshal_fields_def read_url_def read_title_def read_description_def
      read_position_def read_active_def read_restriction_def read_actions_def
      map_bag_simps no_attrs_def)

lemma ParseInt_12345: "ParseInt ''12345'' = Inr 12345"
  by (simp add: ParseInt_def ParseUint_def cutoff10_def maxUint64_def)

lemma digit_char_values:
  "digit_char 0 = CHR ''0''" "digit_char 1 = CHR ''1''" "digit_char (Suc 0) = CHR ''1''"
  "digit_char 2 = CHR ''2''" "digit_char 3 = CHR ''3''" "digit_char 4 = CHR ''4''"
  "digit_char 5 = CHR ''5''" "digit_char 6 = CHR ''6''" "digit_char 7 = CHR ''7''"
  "digit_char 8 = CHR ''8''" "digit_char 9 = CHR ''9''"
  by code_simp+

lemma Sprintf_d_12345: "Sprintf_d 12345 = ''12345''"
  by (simp add: Sprintf_d_def decimal.simps digit_char_values word_sless_alt)

lemma Sprintf_d_1234: "Sprintf_d 1234 = ''1234''"
  by (simp add: Sprintf_d_def decimal.simps digit_char_values word_sless_alt)

lemma ParseInt_1234: "ParseInt ''1234'' = Inr 1234"
  by (simp add: ParseInt_def ParseUint_def cutoff10_def maxUint64_def)

lemma ParseInt_42: "ParseInt ''42'' = Inr 42"
  by (simp add: ParseInt_def ParseUint_def cutoff10_def maxUint64_def)

lemma ParseInt_7: "ParseInt ''7'' = Inr 7"
  by (simp add: ParseInt_def ParseUint_def cutoff10_def maxUint64_def)

lemma ParseInt_abc: "ParseInt ''abc'' = Inl (NumError ''abc'' ErrSyntax)"
  by (simp add: ParseInt_def ParseUint_def cutoff10_def maxUint64_def)

lemma marshalMacro_map_bag:
  "snd (marshalMacro literal_order field (map_bag i m)) = None"
  by (simp add: marshalMacro_def literal_order_def macro_fields_def bag_Set_def map_bag_def
      never_reject_def)

lemma bag_SetId_map_bag: "bag_SetId (map_bag i m) j = map_bag j m"
  by (simp add: bag_SetId_def map_bag_def)

lemma unmarshal_fields_two_actions:
  "unmarshal_fields bag_two_actions zero_Macro =
     Some (zero_Macro\<lparr>Actions := [\<lparr>Field = ''status'', Value = ''open''\<rparr>,
                                   \<lparr>Field = ''priority'', Value = ''high''\<rparr>]\<rparr>)"
  by (simp add: unmarshal_fields_def read_url_def read_title_def read_description_def
      read_position_def read_active_def read_restriction_def read_actions_def
      bag_two_actions_def map_bag_simps action_record_def zero_Macro_def)

section \<open>The lifecycle operations and the bag\<close>

text \<open>
  C8. Delete does not mutate: when the identifier of the bag parses as a base-10 64-bit
  integer and the remote \<open>DeleteMacro\<close> returns no error, \<open>deleteMacro\<close> returns no
  diagnostic, issues that one call, and leaves the whole bag (every field and the
  identifier slot) as it was.
\<close>

theorem deleteMacro_no_mutation:
  assumes "ParseInt (bag_Id d) = Inr i" and "DeleteMacro zd i = None"
  shows "deleteMacro d zd = \<lparr>outcome = Returned [], final = d, calls = [CallDeleteMacro i]\<rparr>"
  using assms by (simp add: deleteMacro_def)

theorem deleteMacro_no_mutation_witness:
  "ParseInt (bag_Id (map_bag ''12345'' no_attrs)) = Inr 12345 \<and>
   DeleteMacro (client_returning zero_Macro) 12345 = None \<and>
   deleteMacro (map_bag ''12345'' no_attrs) (client_returning zero_Macro) =
     \<lparr>outcome = Returned [], final = map_bag ''12345'' no_attrs, calls = [CallDeleteMacro 12345]\<rparr>"
proof -
  have h1: "ParseInt (bag_Id (map_bag ''12345'' no_attrs)) = Inr 12345"
    by (simp add: map_bag_simps ParseInt_12345)
  have h2: "DeleteMacro (client_returning zero_Macro) 12345 = None"
    by (simp add: client_returning_def)
  from deleteMacro_no_mutation[OF h1 h2] h1 h2 show ?thesis by simp
qed

text \<open>
  C5. When the \<open>CreateMacro\<close> call that \<open>createMacro\<close> issues returns an error,
  \<open>createMacro\<close> returns exactly one diagnostic, which wraps that error, and the bag is
  left as it was: the identifier slot is not set and nothing is encoded into the bag.
\<close>

theorem createMacro_remote_failure:
  assumes "calls (createMacro order d zd) = [CallCreateMacro m]" and "CreateMacro zd m = Inl err"
  shows "outcome (createMacro order d zd) = Returned [ErrorDiagnostic err] \<and>
         final (createMacro order d zd) = d"
proof (cases "unmarshalMacro d")
  case None
  with assms(1) show ?thesis by (simp add: createMacro_def)
next
  case (Some r)
  show ?thesis
  proof (cases r)
    case (Inl e)
    with Some assms(1) show ?thesis by (simp add: createMacro_def)
  next
    case (Inr m0)
    with Some assms(1) have "m0 = m"
      by (auto simp: createMacro_def Let_def split: sum.splits prod.splits option.splits)
    with Some Inr assms(2) show ?thesis by (simp add: createMacro_def FromErr_def)
  qed
qed

theorem createMacro_remote_failure_witness:
  "calls (createMacro literal_order (map_bag [] no_attrs) (client_failing (OtherError ''boom'')))
     = [CallCreateMacro zero_Macro] \<and>
   CreateMacro (client_failing (OtherError ''boom'')) zero_Macro = Inl (OtherError ''boom'') \<and>
   outcome (createMacro literal_order (map_bag [] no_attrs) (client_failing (OtherError ''boom'')))
     = Returned [ErrorDiagnostic (OtherError ''boom'')] \<and>
   final (createMacro literal_order (map_bag [] no_attrs) (client_failing (OtherError ''boom'')))
     = map_bag [] no_attrs"
proof -
  have u: "unmarshalMacro (map_bag [] no_attrs) = Some (Inr zero_Macro)"
    by (simp add: unmarshalMacro_def map_bag_simps unmarshal_fields_no_attrs)
  have h1: "calls (createMacro literal_order (map_bag [] no_attrs) (client_failing (OtherError ''boom'')))
     = [CallCreateMacro zero_Macro]"
    by (simp add: createMacro_def u client_failing_def)
  have h2: "CreateMacro (client_failing (OtherError ''boom'')) zero_Macro = Inl (OtherError ''boom'')"
    by (simp add: client_failing_def)
  from createMacro_remote_failure[OF h1 h2] h1 h2 show ?thesis by simp
qed

text \<open>
  C10. Whenever \<open>updateMacro\<close> reaches the remote \<open>UpdateMacro\<close> call, the identifier
  passed as the id argument equals the \<open>ID\<close> field of the decoded macro passed with it.
\<close>

theorem updateMacro_id_agrees:
  assumes "CallUpdateMacro i m \<in> set (calls (updateMacro order d zd))"
  shows "ID m = i"
proof (cases "unmarshalMacro d")
  case None
  with assms show ?thesis by (simp add: updateMacro_def)
next
  case (Some r)
  show ?thesis
  proof (cases r)
    case (Inl err)
    with Some assms show ?thesis by (simp add: updateMacro_def)
  next
    case (Inr m0)
    show ?thesis
    proof (cases "ParseInt (bag_Id d)")
      case (Inl err)
      with Some Inr assms show ?thesis by (simp add: updateMacro_def)
    next
      case Inr2: (Inr j)
      from Some Inr Inr2 assms have eq: "i = j" "m = m0"
        by (auto simp: updateMacro_def split: sum.splits prod.splits option.splits)
      from unmarshalMacro_Inr[of d m0] Some Inr Inr2 have "ID m0 = j"
        by (auto simp: ParseInt_empty)
      with eq show ?thesis by simp
    qed
  qed
qed

theorem updateMacro_id_agrees_witness:
  "CallUpdateMacro 12345 (zero_Macro\<lparr>ID := 12345\<rparr>)
     \<in> set (calls (updateMacro literal_order (map_bag ''12345'' no_attrs) (client_returning zero_Macro))) \<and>
   ID (zero_Macro\<lparr>ID := 12345\<rparr>) = 12345"
proof -
  have u: "unmarshalMacro (map_bag ''12345'' no_attrs) = Some (Inr (zero_Macro\<lparr>ID := 12345\<rparr>))"
    by (simp add: unmarshalMacro_def map_bag_simps ParseInt_12345 unmarshal_fields_no_attrs)
  have h: "CallUpdateMacro 12345 (zero_Macro\<lparr>ID := 12345\<rparr>)
     \<in> set (calls (updateMacro literal_order (map_bag ''12345'' no_attrs) (client_returning zero_Macro)))"
    by (simp add: updateMacro_def u map_bag_simps ParseInt_12345 client_returning_def
        split: prod.splits option.splits)
  from updateMacro_id_agrees[OF h] h show ?thesis by simp
qed

text \<open>
  C7. Identifier assignment: when the \<open>CreateMacro\<close> call that \<open>createMacro\<close> issues
  succeeds and returns a macro with id \<open>N\<close>, and \<open>createMacro\<close> returns no diagnostic,
  the identifier slot of the bag is the base-10 decimal string of \<open>N\<close>, and parsing that
  string as a base-10 64-bit integer yields \<open>N\<close>.
\<close>

theorem createMacro_sets_identifier:
  assumes "calls (createMacro order d zd) = [CallCreateMacro m]"
    and "CreateMacro zd m = Inr m'"
    and "outcome (createMacro order d zd) = Returned []"
  shows "bag_Id (final (createMacro order d zd)) = Sprintf_d (ID m') \<and>
         ParseInt (bag_Id (final (createMacro order d zd))) = Inr (ID m')"
proof (cases "unmarshalMacro d")
  case None
  with assms(1) show ?thesis by (simp add: createMacro_def)
next
  case (Some r)
  show ?thesis
  proof (cases r)
    case (Inl e)
    with Some assms(1) show ?thesis by (simp add: createMacro_def)
  next
    case (Inr m0)
    with Some assms(1) have m0: "m0 = m"
      by (auto simp: createMacro_def Let_def split: sum.splits prod.splits option.splits)
    obtain d2 e where r: "marshalMacro order m' (bag_SetId d (Sprintf_d (ID m'))) = (d2, e)"
      by (cases "marshalMacro order m' (bag_SetId d (Sprintf_d (ID m')))")
    from Some Inr m0 assms(2) r have f: "final (createMacro order d zd) = d2"
      by (cases e) (simp_all add: createMacro_def Let_def)
    from marshalMacro_frame[OF r] have "ident d2 = Sprintf_d (ID m')"
      by (simp add: bag_SetId_def)
    with f show ?thesis by (simp add: bag_Id_def ParseInt_Sprintf_d)
  qed
qed

theorem createMacro_sets_identifier_witness:
  "calls (createMacro literal_order (map_bag [] no_attrs) (client_returning (zero_Macro\<lparr>ID := 12345\<rparr>)))
     = [CallCreateMacro zero_Macro] \<and>
   CreateMacro (client_returning (zero_Macro\<lparr>ID := 12345\<rparr>)) zero_Macro = Inr (zero_Macro\<lparr>ID := 12345\<rparr>) \<and>
   outcome (createMacro literal_order (map_bag [] no_attrs) (client_returning (zero_Macro\<lparr>ID := 12345\<rparr>)))
     = Returned [] \<and>
   bag_Id (final (createMacro literal_order (map_bag [] no_attrs) (client_returning (zero_Macro\<lparr>ID := 12345\<rparr>))))
     = ''12345'' \<and>
   ParseInt (bag_Id (final (createMacro literal_order (map_bag [] no_attrs) (client_returning (zero_Macro\<lparr>ID := 12345\<rparr>)))))
     = Inr 12345"
proof -
  let ?zd = "client_returning (zero_Macro\<lparr>ID := 12345\<rparr>)"
  let ?d = "map_bag [] no_attrs"
  have u: "unmarshalMacro ?d = Some (Inr zero_Macro)"
    by (simp add: unmarshalMacro_def map_bag_simps unmarshal_fields_no_attrs)
  have c: "CreateMacro ?zd zero_Macro = Inr (zero_Macro\<lparr>ID := 12345\<rparr>)"
    by (simp add: client_returning_def)
  obtain d2 e where r: "marshalMacro literal_order (zero_Macro\<lparr>ID := 12345\<rparr>) (map_bag ''12345'' no_attrs) = (d2, e)"
    by (cases "marshalMacro literal_order (zero_Macro\<lparr>ID := 12345\<rparr>) (map_bag ''12345'' no_attrs)")
  have e: "e = None"
    using marshalMacro_map_bag[of "zero_Macro\<lparr>ID := 12345\<rparr>" "''12345''" no_attrs] r by simp
  have h1: "calls (createMacro literal_order ?d ?zd) = [CallCreateMacro zero_Macro]"
    using r e by (simp add: createMacro_def u c Sprintf_d_12345 bag_SetId_map_bag)
  have h3: "outcome (createMacro literal_order ?d ?zd) = Returned []"
    using r e by (simp add: createMacro_def u c Sprintf_d_12345 bag_SetId_map_bag)
  from createMacro_sets_identifier[OF h1 c h3] h1 c h3 show ?thesis
    by (simp add: Sprintf_d_12345 ParseInt_12345)
qed

section \<open>The decoder\<close>

text \<open>
  C9. Action order preservation: when the key \<open>actions\<close> of the bag holds a list of
  {field, value} records, the macro that \<open>unmarshalMacro\<close> returns has exactly these
  actions, as many and in the order of the list. The witness is the bag with the actions
  (status, open) and (priority, high).
\<close>

theorem unmarshalMacro_actions_in_order:
  assumes "bag_GetOk d ''actions'' = Some (VList (map action_record acts))"
    and "unmarshalMacro d = Some (Inr m)"
  shows "Actions m = acts"
proof -
  from assms(2) obtain m0 where u: "unmarshal_fields d m0 = Some m" and z: "Actions m0 = []"
    by (auto simp: unmarshalMacro_def Let_def zero_Macro_def split: if_splits sum.splits)
  from unmarshal_fields_actions[OF u assms(1)] z show ?thesis by simp
qed

theorem unmarshalMacro_actions_in_order_witness:
  "bag_GetOk bag_two_actions ''actions'' =
     Some (VList (map action_record [\<lparr>Field = ''status'', Value = ''open''\<rparr>,
                                     \<lparr>Field = ''priority'', Value = ''high''\<rparr>])) \<and>
   unmarshalMacro bag_two_actions =
     Some (Inr (zero_Macro\<lparr>Actions := [\<lparr>Field = ''status'', Value = ''open''\<rparr>,
                                         \<lparr>Field = ''priority'', Value = ''high''\<rparr>]\<rparr>)) \<and>
   Actions (zero_Macro\<lparr>Actions := [\<lparr>Field = ''status'', Value = ''open''\<rparr>,
                                   \<lparr>Field = ''priority'', Value = ''high''\<rparr>]\<rparr>) =
     [\<lparr>Field = ''status'', Value = ''open''\<rparr>, \<lparr>Field = ''priority'', Value = ''high''\<rparr>]"
proof -
  have h1: "bag_GetOk bag_two_actions ''actions'' =
     Some (VList (map action_record [\<lparr>Field = ''status'', Value = ''open''\<rparr>,
                                     \<lparr>Field = ''priority'', Value = ''high''\<rparr>]))"
    by (simp add: bag_two_actions_def map_bag_simps)
  have h2: "unmarshalMacro bag_two_actions =
     Some (Inr (zero_Macro\<lparr>Actions := [\<lparr>Field = ''status'', Value = ''open''\<rparr>,
                                         \<lparr>Field = ''priority'', Value = ''high''\<rparr>]\<rparr>))"
  proof -
    have "bag_Id bag_two_actions = []" by (simp add: bag_two_actions_def map_bag_simps)
    then show ?thesis by (simp add: unmarshalMacro_def unmarshal_fields_two_actions)
  qed
  from unmarshalMacro_actions_in_order[OF h1 h2] h1 h2 show ?thesis by simp
qed

end
